theory Spec2Isabelle
  imports Main "HOL-Library.Sublist"
begin

section \<open>Python strings\<close>

text \<open>
  A Python \<^verbatim>\<open>str\<close> is a sequence of Unicode code points; \<^verbatim>\<open>len\<close>, \<^verbatim>\<open>find\<close> and slicing
  count code points. A code point is modelled as its number, a string as the list of its
  code points. Literals of \<^verbatim>\<open>app.py\<close> are written as code point lists, with a transliteration
  beside them.
\<close>

type_synonym codepoint = nat
type_synonym ustring = "codepoint list"

text \<open>\<^verbatim>\<open>s.startswith(p)\<close>\<close>

fun startswith :: "'a list \<Rightarrow> 'a list \<Rightarrow> bool" where
  "startswith s [] = True"
| "startswith [] (p # ps) = False"
| "startswith (c # cs) (p # ps) = (c = p \<and> startswith cs ps)"

text \<open>
  \<^verbatim>\<open>s.find(sub)\<close>: the lowest offset at which \<^verbatim>\<open>sub\<close> occurs in \<^verbatim>\<open>s\<close>, or \<^verbatim>\<open>-1\<close>.
  \<open>find_from sub s i\<close> searches the rest \<open>s\<close> of the string, which starts at offset \<open>i\<close>.
\<close>

fun find_from :: "'a list \<Rightarrow> 'a list \<Rightarrow> int \<Rightarrow> int" where
  "find_from sub [] i = (if sub = [] then i else - 1)"
| "find_from sub (c # cs) i =
     (if startswith (c # cs) sub then i else find_from sub cs (i + 1))"

definition py_find :: "'a list \<Rightarrow> 'a list \<Rightarrow> int" where
  "py_find s sub = find_from sub s 0"

text \<open>\<^verbatim>\<open>sub in s\<close>\<close>

definition py_in :: "'a list \<Rightarrow> 'a list \<Rightarrow> bool" where
  "py_in sub s = (py_find s sub \<noteq> - 1)"

text \<open>
  \<^verbatim>\<open>s[a:b]\<close>: a negative index counts from the end, and both indices are clipped to
  \<^verbatim>\<open>0 .. len(s)\<close>; a slice never raises.
\<close>

definition clip_index :: "int \<Rightarrow> nat \<Rightarrow> nat" where
  "clip_index i n = (if i < 0 then nat (max (i + int n) 0) else min (nat i) n)"

definition py_slice :: "'a list \<Rightarrow> int \<Rightarrow> int \<Rightarrow> 'a list" where
  "py_slice s a b =
     (let lo = clip_index a (length s); hi = clip_index b (length s)
      in take (hi - lo) (drop lo s))"

text \<open>
  \<^verbatim>\<open>re.findall(r"\d+", s)\<close>: the maximal runs of decimal digits of \<^verbatim>\<open>s\<close>, from left to
  right. \<open>digit_runs d cur s\<close> carries the run \<open>cur\<close> read so far.
\<close>

fun digit_runs :: "(codepoint \<Rightarrow> bool) \<Rightarrow> ustring \<Rightarrow> ustring \<Rightarrow> ustring list" where
  "digit_runs d cur [] = (if cur = [] then [] else [cur])"
| "digit_runs d cur (c # cs) =
     (if d c then digit_runs d (cur @ [c]) cs
      else if cur = [] then digit_runs d [] cs
      else cur # digit_runs d [] cs)"

definition findall_digits :: "(codepoint \<Rightarrow> bool) \<Rightarrow> ustring \<Rightarrow> ustring list" where
  "findall_digits d s = digit_runs d [] s"


section \<open>The world around the program\<close>

text \<open>
  What \<^verbatim>\<open>app.py\<close> takes from the Python runtime and from the disk:
  \<^item> \<open>str_lower\<close> is \<^verbatim>\<open>str.lower\<close>, Unicode's full lowercase mapping. It is a function on
    strings, not on characters: it is context sensitive (final sigma) and can change the
    length of a string (U+0130 becomes the two code points U+0069 U+0307);
  \<^item> \<open>re_digit\<close> is the class \<^verbatim>\<open>\d\<close> of \<^verbatim>\<open>re\<close> on \<^verbatim>\<open>str\<close> patterns, the Unicode decimal
    digits;
  \<^item> \<open>laws_dir name\<close> is the decoded text of the file \<^verbatim>\<open>laws/name\<close> under the application's
    directory, \<open>None\<close> when opening or reading it raises.
  The theorems below hold for every such world.
\<close>

record world =
  str_lower :: "ustring \<Rightarrow> ustring"
  re_digit :: "codepoint \<Rightarrow> bool"
  laws_dir :: "string \<Rightarrow> ustring option"

text \<open>
  A concrete world for evaluating the program. \<open>lower_cp\<close> is \<^verbatim>\<open>str.lower\<close> on one code
  point of Basic Latin, of the Cyrillic block U+0400 .. U+045F, and on U+0130; concrete
  inputs below use these code points only. \<open>ascii_digit\<close> is \<^verbatim>\<open>\d\<close> on the same code points.
\<close>

definition lower_cp :: "codepoint \<Rightarrow> ustring" where
  "lower_cp c =
     (if 65 \<le> c \<and> c \<le> 90 then [c + 32]
      else if 1040 \<le> c \<and> c \<le> 1071 then [c + 32]
      else if 1024 \<le> c \<and> c \<le> 1039 then [c + 80]
      else if c = 304 then [105, 775]
      else [c])"

definition lower_latin_cyrillic :: "ustring \<Rightarrow> ustring" where
  "lower_latin_cyrillic s = concat (map lower_cp s)"

definition ascii_digit :: "codepoint \<Rightarrow> bool" where
  "ascii_digit c = (48 \<le> c \<and> c \<le> 57)"

definition disk_world :: "(string \<Rightarrow> ustring option) \<Rightarrow> world" where
  "disk_world files =
     \<lparr>str_lower = lower_latin_cyrillic, re_digit = ascii_digit, laws_dir = files\<rparr>"


section \<open>Local laws\<close>

definition LAWS_FILES :: "string list" where
  "LAWS_FILES =
     [''constitution_rf.txt'', ''gk_rf.txt'', ''uk_rf.txt'', ''koap_rf.txt'',
      ''law_police.txt'', ''law_consumer.txt'']"

text \<open>\<^verbatim>\<open>load_law\<close>: the text of the file, the empty string when reading it raises.\<close>

definition load_law :: "world \<Rightarrow> string \<Rightarrow> ustring" where
  "load_law W filename = (case laws_dir W filename of None \<Rightarrow> [] | Some t \<Rightarrow> t)"

text \<open>
  The trigger words of \<^verbatim>\<open>detect_file\<close>: "ugolov", "uk", "koap", "administrativ", "gk",
  "grazhdan", "konstituc", "polici", "potrebitel" in Cyrillic letters.
\<close>

definition T_ugolov :: ustring where "T_ugolov = [1091, 1075, 1086, 1083, 1086, 1074]"
definition T_uk :: ustring where "T_uk = [1091, 1082]"
definition T_koap :: ustring where "T_koap = [1082, 1086, 1072, 1087]"
definition T_administrativ :: ustring where
  "T_administrativ = [1072, 1076, 1084, 1080, 1085, 1080, 1089, 1090, 1088, 1072, 1090, 1080, 1074]"
definition T_gk :: ustring where "T_gk = [1075, 1082]"
definition T_grazhdan :: ustring where "T_grazhdan = [1075, 1088, 1072, 1078, 1076, 1072, 1085]"
definition T_konstituc :: ustring where
  "T_konstituc = [1082, 1086, 1085, 1089, 1090, 1080, 1090, 1091, 1094]"
definition T_polici :: ustring where "T_polici = [1087, 1086, 1083, 1080, 1094, 1080]"
definition T_potrebitel :: ustring where
  "T_potrebitel = [1087, 1086, 1090, 1088, 1077, 1073, 1080, 1090, 1077, 1083]"

definition detect_file :: "world \<Rightarrow> ustring \<Rightarrow> string option" where
  "detect_file W q0 =
     (let q = str_lower W q0 in
      if py_in T_ugolov q \<or> py_in T_uk q then Some ''uk_rf.txt''
      else if py_in T_koap q \<or> py_in T_administrativ q then Some ''koap_rf.txt''
      else if py_in T_gk q \<or> py_in T_grazhdan q then Some ''gk_rf.txt''
      else if py_in T_konstituc q then Some ''constitution_rf.txt''
      else if py_in T_polici q then Some ''law_police.txt''
      else if py_in T_potrebitel q then Some ''law_consumer.txt''
      else None)"

text \<open>The word "stat'ya" in Cyrillic letters and a space: the head of the search pattern.\<close>

definition STATYA :: ustring where
  "STATYA = [1089, 1090, 1072, 1090, 1100, 1103, 32]"

text \<open>\<^verbatim>\<open>full[max(0, idx - 80): idx + 900]\<close>\<close>

definition window :: "ustring \<Rightarrow> int \<Rightarrow> ustring" where
  "window full idx = py_slice full (max 0 (idx - 80)) (idx + 900)"

text \<open>
  \<^verbatim>\<open>find_article\<close> returns the pair (file name, fragment), \<open>(None, None)\<close> when nothing is
  found. The model returns with it the names of the files that \<^verbatim>\<open>load_law\<close> opened, in
  the order of the calls. A run of digits is never empty and no file name of \<^verbatim>\<open>detect_file\<close>
  is (\<open>findall_digits_nonempty\<close>, \<open>detect_file_nonempty\<close> below), so the test
  \<^verbatim>\<open>if num and codex\<close> is the test that neither is \<^verbatim>\<open>None\<close>.
\<close>

type_synonym found = "string option \<times> ustring option"

definition opened :: "string \<Rightarrow> found \<times> string list \<Rightarrow> found \<times> string list" where
  "opened f r = (fst r, f # snd r)"

text \<open>The loop \<^verbatim>\<open>for f in LAWS_FILES\<close> of \<^verbatim>\<open>find_article\<close>.\<close>

fun scan_laws :: "world \<Rightarrow> ustring \<Rightarrow> string list \<Rightarrow> found \<times> string list" where
  "scan_laws W q [] = ((None, None), [])"
| "scan_laws W q (f # fs) =
     (let full = load_law W f in
      if full = [] then opened f (scan_laws W q fs)
      else
        let low = str_lower W full; idx = py_find low q in
        if idx \<noteq> - 1 then ((Some f, Some (window full idx)), [f])
        else opened f (scan_laws W q fs))"

definition find_article :: "world \<Rightarrow> ustring \<Rightarrow> bool \<Rightarrow> found \<times> string list" where
  "find_article W query laws_ok =
     (if \<not> laws_ok then ((None, None), [])
      else
        let q = str_lower W query;
            nums = findall_digits (re_digit W) q;
            num = (case nums of [] \<Rightarrow> None | n # _ \<Rightarrow> Some n);
            codex = detect_file W q
        in case (num, codex) of
             (Some n, Some c) \<Rightarrow>
               (let full = load_law W c;
                    low = str_lower W full;
                    pattern = STATYA @ n;
                    idx = py_find low pattern
                in if idx \<noteq> - 1 then ((Some c, Some (window full idx)), [c])
                   else opened c (scan_laws W q LAWS_FILES))
           | _ \<Rightarrow> scan_laws W q LAWS_FILES)"


section \<open>The local model\<close>

text \<open>
  A call of the loaded model with the prompt, together with the reading of
  \<^verbatim>\<open>result["choices"][0]["text"]\<close>, has one of two outcomes: \<open>Returned raw\<close>, where \<open>raw\<close> is
  the text or \<open>None\<close>; or \<open>Raised msg\<close>, when the call or the reading raises an
  \<^verbatim>\<open>Exception\<close> \<^verbatim>\<open>e\<close> with \<^verbatim>\<open>str(e)\<close> equal to \<open>msg\<close>. The sampling parameters are fixed
  by \<^verbatim>\<open>run\<close>, so an engine is a function of the prompt. A call that never returns, and an
  exit or interrupt (a \<^verbatim>\<open>BaseException\<close> that is no \<^verbatim>\<open>Exception\<close>, which \<^verbatim>\<open>run\<close> does not
  catch), are outside the model.
\<close>

datatype outcome = Returned "ustring option" | Raised ustring

type_synonym engine = "ustring \<Rightarrow> outcome"

text \<open>
  What \<^verbatim>\<open>get_llm\<close> sees of the machine at one call: whether \<^verbatim>\<open>llama_cpp\<close> was imported
  (\<^verbatim>\<open>HAS_LLAMA\<close>), whether \<^verbatim>\<open>MODEL_PATH\<close> exists now, and what \<^verbatim>\<open>Llama(...)\<close> would do now
  (\<open>None\<close> when it raises).
\<close>

record host =
  HAS_LLAMA :: bool
  model_exists :: bool
  Llama :: "engine option"

text \<open>
  \<^verbatim>\<open>get_llm\<close> on the global \<^verbatim>\<open>llm\<close>. The result is the returned value, the global
  afterwards, and whether \<^verbatim>\<open>Llama(...)\<close> was called.
\<close>

definition get_llm :: "host \<Rightarrow> engine option \<Rightarrow> engine option \<times> engine option \<times> bool" where
  "get_llm H llm =
     (if \<not> HAS_LLAMA H then (None, llm, False)
      else if \<not> model_exists H then (None, llm, False)
      else case llm of
             None \<Rightarrow>
               (case Llama H of
                  None \<Rightarrow> (None, None, True)
                | Some e \<Rightarrow> (Some e, Some e, True))
           | Some e \<Rightarrow> (Some e, Some e, False))"


section \<open>The worker\<close>

text \<open>\<^verbatim>\<open>str.isspace\<close> on one code point, and \<^verbatim>\<open>lstrip\<close>, \<^verbatim>\<open>strip\<close> without argument.\<close>

definition is_space :: "codepoint \<Rightarrow> bool" where
  "is_space c =
     ((9 \<le> c \<and> c \<le> 13) \<or> (28 \<le> c \<and> c \<le> 32) \<or> c = 133 \<or> c = 160 \<or> c = 5760 \<or>
      (8192 \<le> c \<and> c \<le> 8202) \<or> c = 8232 \<or> c = 8233 \<or> c = 8239 \<or> c = 8287 \<or> c = 12288)"

definition py_lstrip :: "ustring \<Rightarrow> ustring" where
  "py_lstrip s = dropWhile is_space s"

definition py_strip :: "ustring \<Rightarrow> ustring" where
  "py_strip s = rev (dropWhile is_space (rev (dropWhile is_space s)))"

record AIWorker =
  question :: ustring
  fragment :: ustring

text \<open>The message of the path without an engine; it ends in a full stop.\<close>

definition NOT_CONFIGURED :: ustring where
  "NOT_CONFIGURED =
     [1051, 1086, 1082, 1072, 1083, 1100, 1085, 1099, 1081, 32, 1048, 1048, 32, 1085, 1077, 32,
      1085, 1072, 1089, 1090, 1088, 1086, 1077, 1085, 46, 10, 10, 1055, 1088, 1086, 1074, 1077,
      1088, 1100, 44, 32, 1095, 1090, 1086, 32, 1091, 1089, 1090, 1072, 1085, 1086, 1074, 1083,
      1077, 1085, 32, 1087, 1072, 1082, 1077, 1090, 32, 108, 108, 97, 109, 97, 45, 99, 112, 112, 45,
      112, 121, 116, 104, 111, 110, 10, 1080, 32, 1089, 1091, 1097, 1077, 1089, 1090, 1074, 1091,
      1077, 1090, 32, 1092, 1072, 1081, 1083, 32, 109, 111, 100, 101, 108, 115, 47, 109, 105, 115,
      116, 114, 97, 108, 46, 103, 103, 117, 102, 32, 1088, 1103, 1076, 1086, 1084, 32, 1089, 32,
      1087, 1088, 1086, 1075, 1088, 1072, 1084, 1084, 1086, 1081, 46]"

text \<open>The three fixed parts of the prompt, around the fragment and the question.\<close>

definition PROMPT_HEAD :: ustring where
  "PROMPT_HEAD =
     [10, 1058, 1099, 32, 1102, 1088, 1080, 1076, 1080, 1095, 1077, 1089, 1082, 1080, 1081, 32,
      1087, 1086, 1084, 1086, 1097, 1085, 1080, 1082, 32, 1087, 1086, 32, 1079, 1072, 1082, 1086,
      1085, 1086, 1076, 1072, 1090, 1077, 1083, 1100, 1089, 1090, 1074, 1091, 32, 1056, 1060, 46,
      10, 1054, 1090, 1074, 1077, 1095, 1072, 1081, 32, 1087, 1088, 1086, 1089, 1090, 1099, 1084,
      44, 32, 1087, 1086, 1085, 1103, 1090, 1085, 1099, 1084, 32, 1103, 1079, 1099, 1082, 1086,
      1084, 44, 32, 1085, 1086, 32, 1086, 1087, 1080, 1088, 1072, 1081, 1089, 1103, 32, 1090, 1086,
      1083, 1100, 1082, 1086, 32, 1085, 1072, 32, 1088, 1077, 1072, 1083, 1100, 1085, 1099, 1077,
      32, 1079, 1072, 1082, 1086, 1085, 1099, 32, 1056, 1060, 46, 10, 1045, 1089, 1083, 1080, 32,
      1085, 1077, 1090, 32, 1090, 1086, 1095, 1085, 1086, 1081, 32, 1080, 1085, 1092, 1086, 1088,
      1084, 1072, 1094, 1080, 1080, 44, 32, 1095, 1077, 1089, 1090, 1085, 1086, 32, 1085, 1072,
      1087, 1080, 1096, 1080, 44, 32, 1095, 1090, 1086, 32, 1076, 1072, 1085, 1085, 1099, 1093, 32,
      1085, 1077, 1076, 1086, 1089, 1090, 1072, 1090, 1086, 1095, 1085, 1086, 10, 1080, 32, 1087,
      1086, 1088, 1077, 1082, 1086, 1084, 1077, 1085, 1076, 1091, 1081, 32, 1086, 1073, 1088, 1072,
      1090, 1080, 1090, 1100, 1089, 1103, 32, 1082, 32, 1086, 1092, 1080, 1094, 1080, 1072, 1083,
      1100, 1085, 1099, 1084, 32, 1080, 1089, 1090, 1086, 1095, 1085, 1080, 1082, 1072, 1084, 10,
      40, 1050, 1086, 1085, 1089, 1091, 1083, 1100, 1090, 1072, 1085, 1090, 43, 44, 32, 112, 114,
      97, 118, 111, 46, 103, 111, 118, 46, 114, 117, 32, 1080, 32, 1090, 46, 1087, 46, 41, 46, 10,
      10, 1053, 1080, 1078, 1077, 32, 1084, 1086, 1078, 1077, 1090, 32, 1073, 1099, 1090, 1100, 32,
      1092, 1088, 1072, 1075, 1084, 1077, 1085, 1090, 32, 1079, 1072, 1082, 1086, 1085, 1072, 32,
      40, 1077, 1089, 1083, 1080, 32, 1085, 1072, 1081, 1076, 1077, 1085, 41, 58, 10, 10, 1050,
      1086, 1085, 1090, 1077, 1082, 1089, 1090, 32, 1079, 1072, 1082, 1086, 1085, 1072, 58, 10]"

definition PROMPT_MID :: ustring where
  "PROMPT_MID =
     [10, 10, 1042, 1086, 1087, 1088, 1086, 1089, 32, 1087, 1086, 1083, 1100, 1079, 1086, 1074,
      1072, 1090, 1077, 1083, 1103, 58, 10]"

definition PROMPT_TAIL :: ustring where
  "PROMPT_TAIL =
     [10, 10, 1058, 1077, 1087, 1077, 1088, 1100, 32, 1076, 1072, 1081, 32, 1088, 1072, 1079, 1074,
      1105, 1088, 1085, 1091, 1090, 1099, 1081, 44, 32, 1085, 1086, 32, 1087, 1086, 32, 1076, 1077,
      1083, 1091, 32, 1086, 1090, 1074, 1077, 1090, 32, 1086, 1090, 32, 1087, 1077, 1088, 1074,
      1086, 1075, 1086, 32, 1083, 1080, 1094, 1072, 46, 10, 1053, 1077, 32, 1087, 1077, 1088, 1077,
      1087, 1080, 1089, 1099, 1074, 1072, 1081, 32, 1074, 1086, 1087, 1088, 1086, 1089, 32, 1094,
      1077, 1083, 1080, 1082, 1086, 1084, 46, 32, 1053, 1077, 32, 1087, 1086, 1074, 1090, 1086,
      1088, 1103, 1081, 32, 1090, 1077, 1082, 1089, 1090, 32, 1080, 1085, 1089, 1090, 1088, 1091,
      1082, 1094, 1080, 1080, 46, 10, 1054, 1090, 1074, 1077, 1090, 58, 10]"

definition prompt :: "AIWorker \<Rightarrow> ustring" where
  "prompt w = PROMPT_HEAD @ fragment w @ PROMPT_MID @ question w @ PROMPT_TAIL"

text \<open>
  The echo prefixes, in the order of the source: "Otvet:", "otvet:", "Otvet pol'zovatelya:",
  "Vopros pol'zovatelya:", "Vopros:" in Cyrillic letters.
\<close>

definition PREFIXES :: "ustring list" where
  "PREFIXES =
     [[1054, 1090, 1074, 1077, 1090, 58],
      [1086, 1090, 1074, 1077, 1090, 58],
      [1054, 1090, 1074, 1077, 1090, 32, 1087, 1086, 1083, 1100, 1079, 1086, 1074, 1072, 1090,
       1077, 1083, 1103, 58],
      [1042, 1086, 1087, 1088, 1086, 1089, 32, 1087, 1086, 1083, 1100, 1079, 1086, 1074, 1072,
       1090, 1077, 1083, 1103, 58],
      [1042, 1086, 1087, 1088, 1086, 1089, 58]]"

text \<open>The loop \<^verbatim>\<open>for prefix in [...]\<close>; it has no \<^verbatim>\<open>break\<close>.\<close>

fun strip_prefixes :: "ustring list \<Rightarrow> ustring \<Rightarrow> ustring" where
  "strip_prefixes [] text = text"
| "strip_prefixes (p # ps) text =
     strip_prefixes ps
       (if startswith text p then py_lstrip (drop (length p) text) else text)"

text \<open>The replacement of an empty answer; it ends in a full stop.\<close>

definition FALLBACK :: ustring where
  "FALLBACK =
     [1048, 1048, 32, 1085, 1077, 32, 1089, 1084, 1086, 1075, 32, 1089, 1092, 1086, 1088, 1084,
      1091, 1083, 1080, 1088, 1086, 1074, 1072, 1090, 1100, 32, 1086, 1090, 1074, 1077, 1090, 46,
      32, 1055, 1086, 1087, 1088, 1086, 1073, 1091, 1081, 1090, 1077, 32, 1087, 1077, 1088, 1077,
      1092, 1086, 1088, 1084, 1091, 1083, 1080, 1088, 1086, 1074, 1072, 1090, 1100, 32, 1074, 1086,
      1087, 1088, 1086, 1089, 46]"

text \<open>The characters \<^verbatim>\<open>. ? !\<close>, the ellipsis U+2026, U+00BB, \<^verbatim>\<open>"\<close> and \<^verbatim>\<open>'\<close>.\<close>

definition TERMINAL :: ustring where
  "TERMINAL = [46, 63, 33, 8230, 187, 34, 39]"

definition ELLIPSIS :: ustring where
  "ELLIPSIS = [8230]"

text \<open>The text before the message of a caught exception: "Oshibka raboty II: ".\<close>

definition ERROR_HEAD :: ustring where
  "ERROR_HEAD =
     [1054, 1096, 1080, 1073, 1082, 1072, 32, 1088, 1072, 1073, 1086, 1090, 1099, 32, 1048, 1048,
      58, 32]"

text \<open>The body of the \<^verbatim>\<open>try\<close> after the call: from \<^verbatim>\<open>raw\<close> to the final \<^verbatim>\<open>text\<close>.\<close>

definition postprocess :: "ustring option \<Rightarrow> ustring" where
  "postprocess raw =
     (let text = py_strip (case raw of None \<Rightarrow> [] | Some r \<Rightarrow> r);
          text = strip_prefixes PREFIXES text;
          text = (if text = [] then FALLBACK else text);
          text = (if text \<noteq> [] \<and> last text \<notin> set TERMINAL then text @ ELLIPSIS else text)
      in text)"

text \<open>
  \<^verbatim>\<open>AIWorker.run\<close>. The result is the list of the strings that \<^verbatim>\<open>finished.emit\<close> was
  called with, in order, and the global \<^verbatim>\<open>llm\<close> afterwards.
\<close>

definition run :: "host \<Rightarrow> engine option \<Rightarrow> AIWorker \<Rightarrow> ustring list \<times> engine option" where
  "run H llm w =
     (case get_llm H llm of
        (None, llm', _) \<Rightarrow> ([NOT_CONFIGURED], llm')
      | (Some engine, llm', _) \<Rightarrow>
          (let text =
                 (case engine (prompt w) of
                    Returned raw \<Rightarrow> postprocess raw
                  | Raised e \<Rightarrow> ERROR_HEAD @ e)
           in ([text], llm')))"

text \<open>
  \<^verbatim>\<open>Main.ask_ai\<close> on the content of the input field. The worker's \<^verbatim>\<open>run\<close> is the target of
  a thread of its own; the model runs it in place and returns what \<^verbatim>\<open>finished\<close> delivers
  to \<^verbatim>\<open>ai_done\<close>. The lines written to the output widget are not modelled.
\<close>

definition ask_ai ::
  "world \<Rightarrow> host \<Rightarrow> engine option \<Rightarrow> bool \<Rightarrow> ustring \<Rightarrow> ustring list \<times> engine option" where
  "ask_ai W H llm laws_ok input =
     (let q = py_strip input in
      if q = [] then ([], llm)
      else
        let (fname, frag) = fst (find_article W q laws_ok);
            frag = (case frag of None \<Rightarrow> [] | Some t \<Rightarrow> t);
            worker = \<lparr>question = q, fragment = frag\<rparr>
        in run H llm worker)"


section \<open>The specification's reading of the prefix clean-up\<close>

text \<open>
  The specification says that at most one echo prefix is removed. \<open>removes_at_most_one_prefix\<close>
  states that reading, to be compared with \<open>strip_prefixes\<close>: the result is the text itself,
  or the text without one prefix of the list and without the white space after it.
\<close>

definition removes_at_most_one_prefix :: "ustring \<Rightarrow> ustring \<Rightarrow> bool" where
  "removes_at_most_one_prefix text result =
     (result = text \<or>
      (\<exists>p \<in> set PREFIXES. startswith text p \<and> result = py_lstrip (drop (length p) text)))"

text \<open>
  \<open>removed_in_turn ps text\<close> removes the strings \<open>ps\<close> one after the other from the start of
  \<open>text\<close>, each with the white space after it; it is \<open>None\<close> when one of them is not at the
  start when its turn comes.
\<close>

fun removed_in_turn :: "ustring list \<Rightarrow> ustring \<Rightarrow> ustring option" where
  "removed_in_turn [] text = Some text"
| "removed_in_turn (p # ps) text =
     (if startswith text p then removed_in_turn ps (py_lstrip (drop (length p) text)) else None)"


section \<open>Sample inputs\<close>

text \<open>
  The query "uk 15" and a criminal code that holds "Stat'ya 158. Krazha" (article 158, theft)
  and no article 15.
\<close>

definition query_uk_15 :: ustring where
  "query_uk_15 = [1091, 1082, 32, 49, 53]"

definition article_158_law :: ustring where
  "article_158_law =
     [1057, 1090, 1072, 1090, 1100, 1103, 32, 49, 53, 56, 46, 32, 1050, 1088, 1072, 1078, 1072]"

definition article_158_world :: world where
  "article_158_world =
     disk_world (\<lambda>f. if f = ''uk_rf.txt'' then Some article_158_law else None)"

text \<open>
  The query "Stat'ya 158 UK" and a criminal code in which the article starts at offset 10,
  after the line "Glava 21.".
\<close>

definition query_article_158_uk :: ustring where
  "query_article_158_uk =
     [1057, 1090, 1072, 1090, 1100, 1103, 32, 49, 53, 56, 32, 1059, 1050]"

definition chapter_21_law :: ustring where
  "chapter_21_law =
     [1043, 1083, 1072, 1074, 1072, 32, 50, 49, 46, 10, 1057, 1090, 1072, 1090, 1100, 1103, 32,
      49, 53, 56, 46, 32, 1050, 1088, 1072, 1078, 1072]"

definition chapter_21_world :: world where
  "chapter_21_world =
     disk_world (\<lambda>f. if f = ''uk_rf.txt'' then Some chapter_21_law else None)"

text \<open>
  The query "Dogovor" (contract): no digits, no trigger word. The civil code holds
  "Stat'ya 420. Ponyatie dogovora", the criminal code holds "Dogovor"; the constitution is
  missing.
\<close>

definition query_dogovor :: ustring where
  "query_dogovor = [1044, 1086, 1075, 1086, 1074, 1086, 1088]"

definition article_420_law :: ustring where
  "article_420_law =
     [1057, 1090, 1072, 1090, 1100, 1103, 32, 52, 50, 48, 46, 32, 1055, 1086, 1085, 1103, 1090,
      1080, 1077, 32, 1076, 1086, 1075, 1086, 1074, 1086, 1088, 1072]"

definition dogovor_world :: world where
  "dogovor_world =
     disk_world (\<lambda>f. if f = ''gk_rf.txt'' then Some article_420_law
                     else if f = ''uk_rf.txt'' then Some query_dogovor else None)"

text \<open>
  The query "uk 5" and a criminal code that is 88 times the letter U+0130 (capital I with
  dot above) followed by "stat'ya 5": 96 code points, whose lowercase form has 184.
\<close>

definition query_uk_5 :: ustring where
  "query_uk_5 = [1091, 1082, 32, 53]"

definition dotted_I_law :: ustring where
  "dotted_I_law = replicate 88 304 @ STATYA @ [53]"

definition dotted_I_world :: world where
  "dotted_I_world = disk_world (\<lambda>f. if f = ''uk_rf.txt'' then Some dotted_I_law else None)"

text \<open>
  A criminal code in which 100 letters U+0130 stand before "stat'ya 5" and 1000 full stops
  after it: the phrase is at offset 100 of the text and at offset 200 of its lowercase form.
\<close>

definition shifted_law :: ustring where
  "shifted_law = replicate 100 304 @ STATYA @ [53] @ replicate 1000 46"

definition shifted_world :: world where
  "shifted_world = disk_world (\<lambda>f. if f = ''uk_rf.txt'' then Some shifted_law else None)"

text \<open>
  The query "uk " followed by a number of 894 digits, and a criminal code that is
  "stat'ya " followed by that number: a phrase of 901 code points.
\<close>

definition digits_894 :: ustring where
  "digits_894 = replicate 894 49"

definition long_number_query :: ustring where
  "long_number_query = [1091, 1082, 32] @ digits_894"

definition long_number_law :: ustring where
  "long_number_law = STATYA @ digits_894"

definition long_number_world :: world where
  "long_number_world =
     disk_world (\<lambda>f. if f = ''uk_rf.txt'' then Some long_number_law else None)"

text \<open>
  A model output that echoes two prefixes, "Otvet: Vopros: da."; an engine that returns it,
  an engine that raises with the message "X", and three machines: one on which
  \<^verbatim>\<open>Llama(...)\<close> raises, and one for each engine.
\<close>

definition echo_twice :: ustring where
  "echo_twice =
     [1054, 1090, 1074, 1077, 1090, 58, 32, 1042, 1086, 1087, 1088, 1086, 1089, 58, 32, 1076,
      1072, 46]"

definition echoing_engine :: engine where
  "echoing_engine p = Returned (Some echo_twice)"

definition raising_engine :: engine where
  "raising_engine p = Raised [88]"

definition failing_host :: host where
  "failing_host = \<lparr>HAS_LLAMA = True, model_exists = True, Llama = None\<rparr>"

definition echoing_host :: host where
  "echoing_host = \<lparr>HAS_LLAMA = True, model_exists = True, Llama = Some echoing_engine\<rparr>"

definition raising_host :: host where
  "raising_host = \<lparr>HAS_LLAMA = True, model_exists = True, Llama = Some raising_engine\<rparr>"

definition sample_worker :: AIWorker where
  "sample_worker = \<lparr>question = query_uk_15, fragment = []\<rparr>"


section \<open>Properties of the string operations\<close>

lemma startswith_prefix: "startswith s p = prefix p s"
  by (induction s p rule: startswith.induct) auto

lemma find_from_range: "find_from sub s i = - 1 \<or> (i \<le> find_from sub s i \<and> find_from sub s i + int (length sub) \<le> i + int (length s))"
proof (induction s arbitrary: i)
  case Nil
  then show ?case by simp
next
  case (Cons c cs)
  show ?case
  proof (cases "startswith (c # cs) sub")
    case True
    then have "length sub \<le> length (c # cs)"
      using prefix_length_le [of sub "c # cs"] by (simp only: startswith_prefix)
    with True show ?thesis by simp
  next
    case False
    with Cons [of "i + 1"] show ?thesis by auto
  qed
qed

lemma find_from_match:
  "find_from sub s i \<noteq> - 1 \<Longrightarrow> 0 \<le> i \<Longrightarrow> startswith (drop (nat (find_from sub s i - i)) s) sub"
proof (induction s arbitrary: i)
  case Nil
  then show ?case by (simp split: if_splits)
next
  case (Cons c cs)
  show ?case
  proof (cases "startswith (c # cs) sub")
    case True
    then show ?thesis by simp
  next
    case False
    from find_from_range [of sub cs "i + 1"] Cons.prems False
    have ge: "i + 1 \<le> find_from sub cs (i + 1)" by auto
    then have "nat (find_from sub cs (i + 1) - i) = Suc (nat (find_from sub cs (i + 1) - (i + 1)))"
      by linarith
    with Cons.IH [of "i + 1"] Cons.prems False show ?thesis by simp
  qed
qed

lemma find_from_first:
  "find_from sub s i \<noteq> - 1 \<Longrightarrow> 0 \<le> i \<Longrightarrow> j < nat (find_from sub s i - i) \<Longrightarrow> \<not> startswith (drop j s) sub"
proof (induction s arbitrary: i j)
  case Nil
  then show ?case by (simp split: if_splits)
next
  case (Cons c cs)
  show ?case
  proof (cases "startswith (c # cs) sub")
    case True
    with Cons.prems show ?thesis by simp
  next
    case False
    from find_from_range [of sub cs "i + 1"] Cons.prems False
    have ge: "i + 1 \<le> find_from sub cs (i + 1)" by auto
    show ?thesis
    proof (cases j)
      case 0
      with False show ?thesis by simp
    next
      case (Suc k)
      with Cons.prems False ge have "k < nat (find_from sub cs (i + 1) - (i + 1))" by simp
      with Cons.IH [of "i + 1" k] Cons.prems False Suc show ?thesis by simp
    qed
  qed
qed

lemma find_from_absent:
  "find_from sub s i = - 1 \<Longrightarrow> 0 \<le> i \<Longrightarrow> \<not> startswith (drop j s) sub"
proof (induction s arbitrary: i j)
  case Nil
  then show ?case by (cases sub) (simp_all split: if_splits)
next
  case (Cons c cs)
  then have ns: "\<not> startswith (c # cs) sub" and rest: "find_from sub cs (i + 1) = - 1"
    by (auto split: if_splits)
  show ?case
  proof (cases j)
    case 0
    with ns show ?thesis by simp
  next
    case (Suc k)
    with Cons.IH [of "i + 1" k] rest Cons.prems show ?thesis by simp
  qed
qed

lemma clip_index_nonneg: "0 \<le> i \<Longrightarrow> clip_index i n = min (nat i) n"
  by (simp add: clip_index_def)

lemma py_slice_nonneg:
  "0 \<le> a \<Longrightarrow> 0 \<le> b \<Longrightarrow> py_slice s a b = drop (nat a) (take (nat b) s)"
proof -
  assume a: "0 \<le> a" and b: "0 \<le> b"
  have "take (min (nat b) (length s) - min (nat a) (length s)) (drop (min (nat a) (length s)) s)
        = drop (nat a) (take (nat b) s)"
  proof (cases "nat a \<le> length s")
    case True
    then show ?thesis by (simp add: drop_take min_def)
  next
    case False
    then show ?thesis by simp
  qed
  with a b show ?thesis by (simp add: py_slice_def clip_index_nonneg)
qed

lemma window_eq:
  "0 \<le> idx \<Longrightarrow> window full idx = drop (nat (idx - 80)) (take (nat (idx + 900)) full)"
  by (simp add: window_def py_slice_nonneg max_def)


lemma py_find_range:
  "py_find s sub = - 1 \<or> (0 \<le> py_find s sub \<and> py_find s sub + int (length sub) \<le> int (length s))"
  using find_from_range [of sub s 0] by (simp add: py_find_def)

lemma py_find_match:
  "py_find s sub \<noteq> - 1 \<Longrightarrow> startswith (drop (nat (py_find s sub)) s) sub"
  using find_from_match [of sub s 0] by (simp add: py_find_def)

lemma py_find_first:
  "py_find s sub \<noteq> - 1 \<Longrightarrow> j < nat (py_find s sub) \<Longrightarrow> \<not> startswith (drop j s) sub"
  using find_from_first [of sub s 0 j] by (simp add: py_find_def)

lemma py_find_absent:
  "py_find s sub = - 1 \<Longrightarrow> \<not> startswith (drop j s) sub"
  using find_from_absent [of sub s 0 j] by (simp add: py_find_def)

lemma py_find_empty: "py_find s [] = 0"
  by (cases s) (simp_all add: py_find_def)

lemma startswith_append: "startswith (p @ t) p"
  by (induction p) simp_all

lemma py_find_startswith: "startswith s sub \<Longrightarrow> py_find s sub = 0"
  by (cases s; cases sub) (simp_all add: py_find_def)

lemma find_from_startswith: "startswith s sub \<Longrightarrow> find_from sub s i = i"
  by (cases s; cases sub) simp_all

lemma find_from_skip:
  "p \<notin> set pre \<Longrightarrow>
   find_from (p # ps) (pre @ s) i = find_from (p # ps) s (i + int (length pre))"
  by (induction pre arbitrary: i) (auto simp: add.assoc)

lemma py_in_empty: "sub \<noteq> [] \<Longrightarrow> \<not> py_in sub []"
  by (simp add: py_in_def py_find_def)

lemma take_clipped: "take (nat (min b (int (length xs)))) xs = take (nat b) xs"
proof (cases "b \<le> int (length xs)")
  case True
  then show ?thesis by (simp add: min_absorb1)
next
  case False
  then have "min b (int (length xs)) = int (length xs)" "length xs \<le> nat b" by linarith+
  then show ?thesis by simp
qed

lemma window_clipped:
  assumes "0 \<le> idx"
  shows "window full idx =
     drop (nat (max 0 (idx - 80))) (take (nat (min (idx + 900) (int (length full)))) full)"
proof -
  have "nat (max 0 (idx - 80)) = nat (idx - 80)" by linarith
  with assms show ?thesis by (simp only: window_eq take_clipped)
qed

lemma window_length: "0 \<le> idx \<Longrightarrow> length (window full idx) \<le> 980"
  by (simp add: window_eq)

lemma window_nonempty:
  assumes "0 \<le> idx" and "idx < int (length full)"
  shows "window full idx \<noteq> []"
proof -
  have "nat (idx - 80) < min (length full) (nat (idx + 900))"
    using assms by linarith
  moreover have "length (drop (nat (idx - 80)) (take (nat (idx + 900)) full)) =
      min (length full) (nat (idx + 900)) - nat (idx - 80)"
    by simp
  ultimately have "0 < length (drop (nat (idx - 80)) (take (nat (idx + 900)) full))"
    by linarith
  then have "drop (nat (idx - 80)) (take (nat (idx + 900)) full) \<noteq> []"
    by (rule length_greater_0_conv [THEN iffD1])
  with window_eq [OF assms(1), of full] show ?thesis by simp
qed

lemma window_covers:
  assumes i: "0 \<le> i" and fits: "i + int k \<le> int (length full)"
  shows "take (min k 900) (drop (nat i - nat (max 0 (i - 80))) (window full i)) =
           take (min k 900) (drop (nat i) full)"
    and "length (take (min k 900) (drop (nat i) full)) = min k 900"
proof -
  let ?s = "nat (max 0 (i - 80))"
  have s: "?s \<le> nat i" using i by linarith
  have "window full i = drop ?s (take (nat (i + 900)) full)"
    using i by (simp add: window_eq max_def)
  then have "drop (nat i - ?s) (window full i) = drop (nat i) (take (nat (i + 900)) full)"
    using s by simp
  also have "\<dots> = take 900 (drop (nat i) full)"
    using i by (simp add: drop_take nat_add_distrib)
  finally show "take (min k 900) (drop (nat i - ?s) (window full i)) =
           take (min k 900) (drop (nat i) full)"
    by (simp add: min_def)
  show "length (take (min k 900) (drop (nat i) full)) = min k 900"
    using i fits by (simp add: min_def) linarith
qed


section \<open>Properties of the fragment locator\<close>

subsection \<open>The loop over the law files\<close>

lemma fst_opened [simp]: "fst (opened f r) = fst r"
  by (simp add: opened_def)

lemma snd_opened [simp]: "snd (opened f r) = f # snd r"
  by (simp add: opened_def)

lemma scan_laws_found:
  "fst (scan_laws W q fs) = (Some f, Some frag) \<Longrightarrow>
   f \<in> set fs \<and> load_law W f \<noteq> [] \<and> py_find (str_lower W (load_law W f)) q \<noteq> - 1 \<and>
   frag = window (load_law W f) (py_find (str_lower W (load_law W f)) q)"
proof (induction fs)
  case Nil
  then show ?case by simp
next
  case (Cons g gs)
  show ?case
  proof (cases "load_law W g \<noteq> [] \<and> py_find (str_lower W (load_law W g)) q \<noteq> - 1")
    case True
    with Cons.prems show ?thesis by (auto simp: Let_def)
  next
    case False
    with Cons.prems have "fst (scan_laws W q gs) = (Some f, Some frag)"
      by (auto simp: Let_def split: if_splits)
    with Cons.IH show ?thesis by simp
  qed
qed

lemma scan_laws_first:
  "fst (scan_laws W q fs) =
     (case List.find (\<lambda>f. load_law W f \<noteq> [] \<and> py_in q (str_lower W (load_law W f))) fs of
        None \<Rightarrow> (None, None)
      | Some f \<Rightarrow>
          (Some f, Some (window (load_law W f) (py_find (str_lower W (load_law W f)) q))))"
  by (induction fs) (simp_all add: Let_def py_in_def)

lemma scan_laws_opened:
  "snd (scan_laws W q fs) =
     take (Suc (length (takeWhile
        (\<lambda>f. \<not> (load_law W f \<noteq> [] \<and> py_in q (str_lower W (load_law W f)))) fs))) fs"
  by (induction fs) (simp_all add: Let_def py_in_def)

subsection \<open>The two tiers\<close>

lemma digit_runs_nonempty: "r \<in> set (digit_runs d cur s) \<Longrightarrow> r \<noteq> []"
  by (induction s arbitrary: cur) (auto split: if_splits)

lemma findall_digits_nonempty: "findall_digits d s = n # ns \<Longrightarrow> n \<noteq> []"
  using digit_runs_nonempty [of n d "[]" s] by (simp add: findall_digits_def)

lemma detect_file_nonempty: "detect_file W q = Some c \<Longrightarrow> c \<noteq> []"
  by (auto simp: detect_file_def Let_def split: if_splits)

lemma find_article_tier1:
  assumes "findall_digits (re_digit W) (str_lower W query) = n # ns"
      and "detect_file W (str_lower W query) = Some c"
      and "py_find (str_lower W (load_law W c)) (STATYA @ n) \<noteq> - 1"
  shows "find_article W query True =
           ((Some c, Some (window (load_law W c)
               (py_find (str_lower W (load_law W c)) (STATYA @ n)))), [c])"
  using assms by (simp add: find_article_def Let_def)

lemma find_article_tier2:
  assumes "findall_digits (re_digit W) (str_lower W query) = [] \<or>
           detect_file W (str_lower W query) = None \<or>
           (\<exists>n ns c. findall_digits (re_digit W) (str_lower W query) = n # ns \<and>
              detect_file W (str_lower W query) = Some c \<and>
              \<not> py_in (STATYA @ n) (str_lower W (load_law W c)))"
  shows "fst (find_article W query True) = fst (scan_laws W (str_lower W query) LAWS_FILES)"
    and "\<exists>pre. snd (find_article W query True) =
           pre @ snd (scan_laws W (str_lower W query) LAWS_FILES)"
proof -
  let ?q = "str_lower W query"
  consider (nonum) "findall_digits (re_digit W) ?q = []"
    | (nocodex) "detect_file W ?q = None"
    | (miss) n ns c where "findall_digits (re_digit W) ?q = n # ns" "detect_file W ?q = Some c"
        "py_find (str_lower W (load_law W c)) (STATYA @ n) = - 1"
    using assms by (auto simp: py_in_def)
  then have "find_article W query True = scan_laws W ?q LAWS_FILES \<or>
      (\<exists>c. find_article W query True = opened c (scan_laws W ?q LAWS_FILES))"
  proof cases
    case nonum
    then show ?thesis by (simp add: find_article_def Let_def)
  next
    case nocodex
    then show ?thesis by (simp add: find_article_def Let_def split: list.splits)
  next
    case miss
    then have "find_article W query True = opened c (scan_laws W ?q LAWS_FILES)"
      by (simp add: find_article_def Let_def)
    then show ?thesis by blast
  qed
  then show "fst (find_article W query True) = fst (scan_laws W ?q LAWS_FILES)"
    and "\<exists>pre. snd (find_article W query True) = pre @ snd (scan_laws W ?q LAWS_FILES)"
    by (auto intro: exI [of _ "[]"] exI [of _ "[c]" for c])
qed

lemma find_article_found:
  assumes "fst (find_article W query laws_ok) = (Some f, Some frag)"
  shows "\<exists>pat. ((\<exists>n ns. findall_digits (re_digit W) (str_lower W query) = n # ns \<and>
                      detect_file W (str_lower W query) = Some f \<and> pat = STATYA @ n) \<or>
                (pat = str_lower W query \<and> load_law W f \<noteq> [] \<and> f \<in> set LAWS_FILES)) \<and>
               py_find (str_lower W (load_law W f)) pat \<noteq> - 1 \<and>
               frag = window (load_law W f) (py_find (str_lower W (load_law W f)) pat)"
proof (cases laws_ok)
  case False
  with assms show ?thesis by (simp add: find_article_def)
next
  case True
  let ?q = "str_lower W query"
  let ?nums = "findall_digits (re_digit W) ?q"
  show ?thesis
  proof (cases "\<exists>n ns c. ?nums = n # ns \<and> detect_file W ?q = Some c \<and>
                  py_find (str_lower W (load_law W c)) (STATYA @ n) \<noteq> - 1")
    case hit: True
    then obtain n ns c where *: "?nums = n # ns" "detect_file W ?q = Some c"
      "py_find (str_lower W (load_law W c)) (STATYA @ n) \<noteq> - 1" by blast
    with assms True have "c = f"
      "frag = window (load_law W f) (py_find (str_lower W (load_law W f)) (STATYA @ n))"
      by (auto simp: find_article_def Let_def)
    with * show ?thesis by blast
  next
    case miss: False
    with assms True have "fst (scan_laws W ?q LAWS_FILES) = (Some f, Some frag)"
      by (auto simp: find_article_def Let_def split: list.splits option.splits if_splits)
    from scan_laws_found [OF this] show ?thesis by blast
  qed
qed

text \<open>
  Where lowercasing keeps the length of every law text, offsets in the lowercase text are
  offsets in the text, and a found fragment is never empty.
\<close>

lemma find_article_fragment_nonempty:
  assumes same_length: "\<And>f. length (str_lower W (load_law W f)) = length (load_law W f)"
      and found: "fst (find_article W query laws_ok) = (Some f, Some frag)"
  shows "frag \<noteq> []"
proof -
  from find_article_found [OF found] obtain pat where
    pat: "(\<exists>n ns. findall_digits (re_digit W) (str_lower W query) = n # ns \<and>
                      detect_file W (str_lower W query) = Some f \<and> pat = STATYA @ n) \<or>
                (pat = str_lower W query \<and> load_law W f \<noteq> [] \<and> f \<in> set LAWS_FILES)" and
    hit: "py_find (str_lower W (load_law W f)) pat \<noteq> - 1" and
    frag: "frag = window (load_law W f) (py_find (str_lower W (load_law W f)) pat)" by blast
  from pat have ne: "pat \<noteq> [] \<or> load_law W f \<noteq> []"
    by (auto simp: STATYA_def)
  let ?idx = "py_find (str_lower W (load_law W f)) pat"
  from hit py_find_range [of "str_lower W (load_law W f)" pat] same_length [of f]
  have nn: "0 \<le> ?idx" and fits: "?idx + int (length pat) \<le> int (length (load_law W f))"
    by auto
  have "?idx < int (length (load_law W f))"
  proof (cases "pat = []")
    case True
    with ne show ?thesis by (simp add: py_find_empty)
  next
    case False
    with fits show ?thesis by (cases pat) simp_all
  qed
  with nn frag show ?thesis by (simp add: window_nonempty)
qed


subsection \<open>The sample worlds, evaluated\<close>

lemma lower_latin_cyrillic_append:
  "lower_latin_cyrillic (a @ b) = lower_latin_cyrillic a @ lower_latin_cyrillic b"
  by (simp add: lower_latin_cyrillic_def)

lemma lower_latin_cyrillic_dotted:
  "lower_latin_cyrillic (replicate n 304) = concat (replicate n [105, 775])"
  by (induction n) (simp_all add: lower_latin_cyrillic_def lower_cp_def)

lemma lower_latin_cyrillic_fixed:
  "(\<And>c. c \<in> set s \<Longrightarrow> lower_cp c = [c]) \<Longrightarrow> lower_latin_cyrillic s = s"
  by (induction s) (simp_all add: lower_latin_cyrillic_def)

lemma length_concat_replicate: "length (concat (replicate n xs)) = n * length xs"
  by (induction n) simp_all

lemma set_concat_replicate: "set (concat (replicate n xs)) \<subseteq> set xs"
  by (induction n) auto

lemma digit_runs_replicate:
  "d c \<Longrightarrow> digit_runs d cur (replicate n c) =
     (if cur @ replicate n c = [] then [] else [cur @ replicate n c])"
proof (induction n arbitrary: cur)
  case 0
  then show ?case by simp
next
  case (Suc n)
  from Suc.IH [OF Suc.prems, of "cur @ [c]"] Suc.prems show ?case by simp
qed

lemma article_158_result:
  "find_article article_158_world query_uk_15 True =
     ((Some ''uk_rf.txt'', Some article_158_law), [''uk_rf.txt''])"
  by code_simp

lemma article_158_nums:
  "findall_digits (re_digit article_158_world) (str_lower article_158_world query_uk_15)
     = [[49, 53]]"
  by code_simp

lemma article_158_offsets:
  "py_find (str_lower article_158_world article_158_law) (STATYA @ [49, 53]) = 0"
  "startswith (str_lower article_158_world article_158_law) (STATYA @ [49, 53, 56])"
  by code_simp+

lemma chapter_21_facts:
  "findall_digits (re_digit chapter_21_world) (str_lower chapter_21_world query_article_158_uk)
     = [[49, 53, 56]]"
  "detect_file chapter_21_world (str_lower chapter_21_world query_article_158_uk)
     = Some ''uk_rf.txt''"
  "py_in (STATYA @ [49, 53, 56])
     (str_lower chapter_21_world (load_law chapter_21_world ''uk_rf.txt''))"
  "py_find (str_lower chapter_21_world chapter_21_law) (STATYA @ [49, 53, 56]) = 10"
  "length (str_lower chapter_21_world (load_law chapter_21_world ''uk_rf.txt'')) =
   length (load_law chapter_21_world ''uk_rf.txt'')"
  "load_law chapter_21_world ''uk_rf.txt'' = chapter_21_law"
  by code_simp+

lemma dogovor_facts:
  "str_lower dogovor_world [] = []"
  "str_lower dogovor_world query_dogovor \<noteq> []"
  "findall_digits (re_digit dogovor_world) (str_lower dogovor_world query_dogovor) = []"
  "List.find (\<lambda>f. py_in (str_lower dogovor_world query_dogovor)
       (str_lower dogovor_world (load_law dogovor_world f))) LAWS_FILES = Some ''gk_rf.txt''"
  "window (load_law dogovor_world ''gk_rf.txt'')
     (py_find (str_lower dogovor_world (load_law dogovor_world ''gk_rf.txt''))
        (str_lower dogovor_world query_dogovor)) = article_420_law"
  "take (Suc (length (takeWhile (\<lambda>f. \<not> py_in (str_lower dogovor_world query_dogovor)
       (str_lower dogovor_world (load_law dogovor_world f))) LAWS_FILES))) LAWS_FILES
     = [''constitution_rf.txt'', ''gk_rf.txt'']"
  by code_simp+

lemma dotted_I_lower:
  "str_lower dotted_I_world dotted_I_law = concat (replicate 88 [105, 775]) @ STATYA @ [53]"
proof -
  have "lower_latin_cyrillic (STATYA @ [53]) = STATYA @ [53]"
    by (rule lower_latin_cyrillic_fixed) (auto simp: STATYA_def lower_cp_def)
  then show ?thesis
    by (simp add: dotted_I_world_def disk_world_def dotted_I_law_def
        lower_latin_cyrillic_append [of "replicate 88 304"] lower_latin_cyrillic_dotted
        del: append_assoc)
qed

lemma dotted_I_find:
  "py_find (str_lower dotted_I_world dotted_I_law) (STATYA @ [53]) = 176"
proof -
  have "1089 \<notin> set (concat (replicate 88 [105, 775::nat]))"
    using set_concat_replicate [of 88 "[105, 775::nat]"] by auto
  then have "find_from (1089 # [1090, 1072, 1090, 1100, 1103, 32, 53])
      (concat (replicate 88 [105, 775]) @ (STATYA @ [53])) 0 =
      find_from (1089 # [1090, 1072, 1090, 1100, 1103, 32, 53]) (STATYA @ [53])
        (0 + int (length (concat (replicate 88 [105, 775::nat]))))"
    by (rule find_from_skip)
  also have "\<dots> = 176"
    by (simp add: STATYA_def length_concat_replicate)
  finally show ?thesis
    by (simp add: py_find_def dotted_I_lower STATYA_def)
qed

lemma dotted_I_query:
  "str_lower dotted_I_world query_uk_5 = query_uk_5"
  "findall_digits (re_digit dotted_I_world) query_uk_5 = [[53]]"
  "detect_file dotted_I_world query_uk_5 = Some ''uk_rf.txt''"
  "load_law dotted_I_world ''uk_rf.txt'' = dotted_I_law"
  by code_simp+

lemma shifted_lower:
  "str_lower shifted_world shifted_law =
     concat (replicate 100 [105, 775]) @ STATYA @ [53] @ replicate 1000 46"
proof -
  have "lower_latin_cyrillic (STATYA @ [53] @ replicate 1000 46) = STATYA @ [53] @ replicate 1000 46"
    by (rule lower_latin_cyrillic_fixed) (auto simp: STATYA_def lower_cp_def)
  then show ?thesis
    by (simp add: shifted_world_def disk_world_def shifted_law_def
        lower_latin_cyrillic_append [of "replicate 100 304"] lower_latin_cyrillic_dotted
        del: append_assoc)
qed

lemma shifted_find:
  "py_find (str_lower shifted_world shifted_law) (STATYA @ [53]) = 200"
proof -
  have "1089 \<notin> set (concat (replicate 100 [105, 775::nat]))"
    using set_concat_replicate [of 100 "[105, 775::nat]"] by auto
  then have "find_from (1089 # [1090, 1072, 1090, 1100, 1103, 32, 53])
      (concat (replicate 100 [105, 775]) @ ((STATYA @ [53]) @ replicate 1000 46)) 0 =
      find_from (1089 # [1090, 1072, 1090, 1100, 1103, 32, 53]) ((STATYA @ [53]) @ replicate 1000 46)
        (0 + int (length (concat (replicate 100 [105, 775::nat]))))"
    by (rule find_from_skip)
  also have "\<dots> = 0 + int (length (concat (replicate 100 [105, 775::nat])))"
    using startswith_append [of "STATYA @ [53]" "replicate 1000 46"]
    by (intro find_from_startswith) (simp add: STATYA_def)
  also have "\<dots> = 200"
    by (simp add: length_concat_replicate)
  finally show ?thesis
    by (simp add: py_find_def shifted_lower STATYA_def)
qed

lemma shifted_query:
  "str_lower shifted_world query_uk_5 = query_uk_5"
  "findall_digits (re_digit shifted_world) query_uk_5 = [[53]]"
  "detect_file shifted_world query_uk_5 = Some ''uk_rf.txt''"
  "load_law shifted_world ''uk_rf.txt'' = shifted_law"
  by code_simp+

lemma digits_894_lower: "c \<in> set digits_894 \<Longrightarrow> lower_cp c = [c]"
  by (simp add: digits_894_def lower_cp_def)

lemma long_number_law_lower: "c \<in> set long_number_law \<Longrightarrow> lower_cp c = [c]"
  by (auto simp: long_number_law_def digits_894_lower STATYA_def) (simp_all add: lower_cp_def)

lemma long_number_query_lower:
  "str_lower long_number_world long_number_query = long_number_query"
proof -
  have "lower_latin_cyrillic long_number_query = long_number_query"
    by (rule lower_latin_cyrillic_fixed)
      (auto simp: long_number_query_def digits_894_lower, simp_all add: lower_cp_def)
  then show ?thesis by (simp add: long_number_world_def disk_world_def)
qed

lemma long_number_nums:
  "findall_digits (re_digit long_number_world) long_number_query = [digits_894]"
proof -
  have "digit_runs ascii_digit [] (replicate 894 49) = [replicate 894 49]"
    by (subst digit_runs_replicate) (simp_all add: ascii_digit_def)
  then show ?thesis
    by (simp add: findall_digits_def long_number_world_def disk_world_def
        long_number_query_def digits_894_def ascii_digit_def)
qed

lemma long_number_codex:
  "detect_file long_number_world long_number_query = Some ''uk_rf.txt''"
proof -
  have "startswith long_number_query T_uk"
    by (simp add: long_number_query_def T_uk_def)
  then have "py_in T_uk long_number_query"
    by (simp add: py_in_def py_find_startswith)
  then show ?thesis
    by (simp add: detect_file_def long_number_query_lower)
qed

lemma long_number_full: "load_law long_number_world ''uk_rf.txt'' = long_number_law"
  by (simp add: load_law_def long_number_world_def disk_world_def)

lemma long_number_low: "str_lower long_number_world long_number_law = long_number_law"
  using lower_latin_cyrillic_fixed [of long_number_law] long_number_law_lower
  by (simp add: long_number_world_def disk_world_def)

lemma long_number_find: "py_find long_number_law (STATYA @ digits_894) = 0"
  using startswith_append [of "STATYA @ digits_894" "[]"]
  by (simp add: py_find_startswith long_number_law_def)

lemma long_number_window_lower:
  "str_lower long_number_world (take 900 long_number_law) = take 900 long_number_law"
proof -
  have "lower_latin_cyrillic (take 900 long_number_law) = take 900 long_number_law"
    by (rule lower_latin_cyrillic_fixed) (auto dest: in_set_takeD long_number_law_lower)
  then show ?thesis by (simp add: long_number_world_def disk_world_def)
qed


subsection \<open>Absent corpora\<close>

text \<open>
  Claim C8. With \<^verbatim>\<open>laws_ok\<close> false, \<^verbatim>\<open>find_article\<close> returns \<^verbatim>\<open>(None, None)\<close> at once, for
  every query and whatever the law files hold: no file is opened on that path.
\<close>

theorem find_article_laws_absent:
  "find_article W query False = ((None, None), [])"
  by (simp add: find_article_def)

text \<open>The theorem of claim C8 in the world that holds article 158.\<close>

theorem find_article_laws_absent_witness:
  "find_article article_158_world query_uk_15 False = ((None, None), [])"
  by (rule find_article_laws_absent)


subsection \<open>The window\<close>

text \<open>
  What holds of every returned fragment, whatever lowercasing does. It is the slice
  \<^verbatim>\<open>full[max(0, idx - 80) : idx + 900]\<close> of the text \<open>full\<close> of the returned file, where \<open>idx\<close> is
  the offset at which \<^verbatim>\<open>find\<close> met the searched phrase \<open>pat\<close> in the lowercase text: the phrase
  of the precise tier, or the lowercase query in the scan. The start index is not negative,
  the end is clipped at the length of the text, and the fragment has at most 980 characters.
  The bounds are around \<open>idx\<close>, an offset of the lowercase text, not around the place of
  the phrase in the text.
\<close>

lemma find_article_slice_bounds:
  assumes "fst (find_article W query laws_ok) = (Some f, Some frag)"
  shows "\<exists>pat idx start stop.
           ((\<exists>n ns. findall_digits (re_digit W) (str_lower W query) = n # ns \<and>
                     detect_file W (str_lower W query) = Some f \<and> pat = STATYA @ n) \<or>
            (pat = str_lower W query \<and> load_law W f \<noteq> [] \<and> f \<in> set LAWS_FILES)) \<and>
           idx = py_find (str_lower W (load_law W f)) pat \<and> idx \<noteq> - 1 \<and>
           start = max 0 (idx - 80) \<and> stop = min (idx + 900) (int (length (load_law W f))) \<and>
           frag = py_slice (load_law W f) start (idx + 900) \<and>
           0 \<le> start \<and> idx - 80 \<le> start \<and> start \<le> idx \<and>
           stop \<le> idx + 900 \<and> stop \<le> int (length (load_law W f)) \<and>
           frag = drop (nat start) (take (nat stop) (load_law W f)) \<and>
           length frag \<le> 980"
proof -
  from find_article_found [OF assms] obtain pat where
    pat: "(\<exists>n ns. findall_digits (re_digit W) (str_lower W query) = n # ns \<and>
                      detect_file W (str_lower W query) = Some f \<and> pat = STATYA @ n) \<or>
                (pat = str_lower W query \<and> load_law W f \<noteq> [] \<and> f \<in> set LAWS_FILES)" and
    hit: "py_find (str_lower W (load_law W f)) pat \<noteq> - 1" and
    frag: "frag = window (load_law W f) (py_find (str_lower W (load_law W f)) pat)" by blast
  define idx where "idx = py_find (str_lower W (load_law W f)) pat"
  define start where "start = max 0 (idx - 80)"
  define stop where "stop = min (idx + 900) (int (length (load_law W f)))"
  from hit py_find_range [of "str_lower W (load_law W f)" pat] have nn: "0 \<le> idx"
    unfolding idx_def by auto
  have a: "frag = py_slice (load_law W f) start (idx + 900)"
    using frag by (simp add: window_def idx_def start_def)
  have b: "frag = drop (nat start) (take (nat stop) (load_law W f))"
    using window_clipped [OF nn, of "load_law W f"] frag
    by (simp only: idx_def start_def stop_def)
  have c: "length frag \<le> 980"
    using window_length [OF nn, of "load_law W f"] frag by (simp only: idx_def)
  have d: "0 \<le> start" "idx - 80 \<le> start" "start \<le> idx" "stop \<le> idx + 900"
    "stop \<le> int (length (load_law W f))"
    using nn by (simp_all add: start_def stop_def)
  from hit have e: "idx \<noteq> - 1" by (simp add: idx_def)
  show ?thesis
    using pat idx_def e start_def stop_def a d b c by blast
qed

text \<open>
  Claim C7 says that a returned window starts at most 80 characters before the match offset
  and ends at most 900 characters after it, within the text. The program takes the offset
  in the lowercase text and cuts the window out of the text itself. In the criminal code
  with 100 letters U+0130 before the phrase, the phrase "stat'ya 5" is at offset 100 of the
  text, \<^verbatim>\<open>find\<close> gives 200, and \<^verbatim>\<open>find_article\<close> returns \<^verbatim>\<open>full[120:1100]\<close>: 980 full stops,
  a window that starts after the phrase and ends 1000 characters after its offset.
\<close>

theorem find_article_shifted_window:
  "take 8 (drop 100 shifted_law) = STATYA @ [53] \<and>
   py_find (str_lower shifted_world shifted_law) (STATYA @ [53]) = 200 \<and>
   find_article shifted_world query_uk_5 True =
     ((Some ''uk_rf.txt'', Some (drop 120 (take 1100 shifted_law))), [''uk_rf.txt'']) \<and>
   drop 120 (take 1100 shifted_law) = replicate 980 46"
proof -
  note q = shifted_query
  have a: "take 8 (drop 100 shifted_law) = STATYA @ [53]"
    by (simp add: shifted_law_def STATYA_def)
  have w: "window shifted_law 200 = drop 120 (take 1100 shifted_law)"
    by (simp add: window_eq)
  have r: "find_article shifted_world query_uk_5 True =
      ((Some ''uk_rf.txt'', Some (window shifted_law 200)), [''uk_rf.txt''])"
    using find_article_tier1 [of shifted_world query_uk_5 "[53]" "[]" "''uk_rf.txt''"]
    by (simp add: q shifted_find)
  have d: "drop 120 (take 1100 shifted_law) = replicate 980 46"
    by (simp add: shifted_law_def STATYA_def)
  from a shifted_find r w d show ?thesis by simp
qed


subsection \<open>The precise tier\<close>

text \<open>
  Claim C2, as the program has it. Let \<open>n\<close> be the first run of digits of the lowercase query
  and \<open>c\<close> the file that \<^verbatim>\<open>detect_file\<close> gives for it, and let the lowercase text \<open>low\<close> of
  that file contain the phrase "stat'ya " followed by \<open>n\<close>. Then \<^verbatim>\<open>find_article\<close> returns \<open>c\<close>
  with the slice \<^verbatim>\<open>full[max(0, i - 80) : i + 900]\<close> of the file's text, where \<open>i\<close> is the first
  offset of the phrase in \<open>low\<close>. Where \<open>low\<close> is as long as the text, the window starts at or
  before \<open>i\<close> and holds, from there on, the characters of the text under the phrase, up to
  900 of them: the whole phrase when it has at most 900 characters.
\<close>

theorem find_article_precise:
  assumes nums: "findall_digits (re_digit W) (str_lower W query) = n # ns"
      and codex: "detect_file W (str_lower W query) = Some c"
      and hit: "py_in (STATYA @ n) (str_lower W (load_law W c))"
  shows "let full = load_law W c; low = str_lower W full; pat = STATYA @ n;
             i = py_find low pat; start = nat (max 0 (i - 80)); m = min (length pat) 900;
             frag = py_slice full (max 0 (i - 80)) (i + 900)
         in fst (find_article W query True) = (Some c, Some frag) \<and>
            0 \<le> i \<and> startswith (drop (nat i) low) pat \<and>
            (\<forall>j < nat i. \<not> startswith (drop j low) pat) \<and>
            (length low = length full \<longrightarrow>
               start \<le> nat i \<and>
               length (take m (drop (nat i) full)) = m \<and>
               take m (drop (nat i - start) frag) = take m (drop (nat i) full))"
proof -
  let ?full = "load_law W c"
  let ?low = "str_lower W ?full"
  let ?pat = "STATYA @ n"
  let ?i = "py_find ?low ?pat"
  from hit have found: "?i \<noteq> - 1" by (simp add: py_in_def)
  with py_find_range [of ?low ?pat]
  have i: "0 \<le> ?i" and fits: "?i + int (length ?pat) \<le> int (length ?low)" by auto
  have res: "fst (find_article W query True) =
      (Some c, Some (py_slice ?full (max 0 (?i - 80)) (?i + 900)))"
    using find_article_tier1 [OF nums codex found] by (simp add: window_def)
  have first: "\<forall>j < nat ?i. \<not> startswith (drop j ?low) ?pat"
    using py_find_first [OF found] by blast
  have cover: "length ?low = length ?full \<longrightarrow>
      nat (max 0 (?i - 80)) \<le> nat ?i \<and>
      length (take (min (length ?pat) 900) (drop (nat ?i) ?full)) = min (length ?pat) 900 \<and>
      take (min (length ?pat) 900)
        (drop (nat ?i - nat (max 0 (?i - 80))) (py_slice ?full (max 0 (?i - 80)) (?i + 900)))
        = take (min (length ?pat) 900) (drop (nat ?i) ?full)"
  proof
    assume len: "length ?low = length ?full"
    with fits have fits': "?i + int (length ?pat) \<le> int (length ?full)" by simp
    have "nat (max 0 (?i - 80)) \<le> nat ?i" using i by linarith
    with window_covers [OF i fits'] show "nat (max 0 (?i - 80)) \<le> nat ?i \<and>
      length (take (min (length ?pat) 900) (drop (nat ?i) ?full)) = min (length ?pat) 900 \<and>
      take (min (length ?pat) 900)
        (drop (nat ?i - nat (max 0 (?i - 80))) (py_slice ?full (max 0 (?i - 80)) (?i + 900)))
        = take (min (length ?pat) 900) (drop (nat ?i) ?full)"
      by (simp only: window_def)
  qed
  show ?thesis
    unfolding Let_def using res i py_find_match [OF found] first cover by blast
qed

text \<open>
  The theorem of claim C2 at the query "Stat'ya 158 UK": the number is 158, the file is the
  criminal code, the phrase is at offset 10 of a text that lowercasing leaves as long as it
  was, and the fragment is the whole text, which holds the ten characters of the phrase from
  position 10 on.
\<close>

theorem find_article_precise_witness:
  "findall_digits (re_digit chapter_21_world) (str_lower chapter_21_world query_article_158_uk)
     = [[49, 53, 56]] \<and>
   detect_file chapter_21_world (str_lower chapter_21_world query_article_158_uk)
     = Some ''uk_rf.txt'' \<and>
   py_in (STATYA @ [49, 53, 56])
     (str_lower chapter_21_world (load_law chapter_21_world ''uk_rf.txt'')) \<and>
   length (str_lower chapter_21_world (load_law chapter_21_world ''uk_rf.txt'')) =
     length (load_law chapter_21_world ''uk_rf.txt'') \<and>
   fst (find_article chapter_21_world query_article_158_uk True)
     = (Some ''uk_rf.txt'', Some chapter_21_law) \<and>
   take 10 (drop 10 chapter_21_law) = [1057, 1090, 1072, 1090, 1100, 1103, 32, 49, 53, 56]"
proof -
  note f = chapter_21_facts
  have s: "py_slice chapter_21_law (max 0 (10 - 80)) (10 + 900) = chapter_21_law"
    by (simp add: py_slice_def clip_index_def chapter_21_law_def)
  from find_article_precise [OF f(1) f(2) f(3)]
  have "fst (find_article chapter_21_world query_article_158_uk True)
     = (Some ''uk_rf.txt'', Some chapter_21_law)"
    unfolding Let_def f(6) f(4) s by (rule conjunct1)
  moreover have "take 10 (drop 10 chapter_21_law)
      = [1057, 1090, 1072, 1090, 1100, 1103, 32, 49, 53, 56]"
    by (simp add: chapter_21_law_def)
  ultimately show ?thesis using f(1) f(2) f(3) f(5) by simp
qed

text \<open>
  Claim C2 as the specification states it fails where the phrase is longer than the 900
  characters that the window keeps after the offset. For the number of 894 digits the
  hypotheses of the claim hold and \<^verbatim>\<open>find_article\<close> returns the criminal code, but the
  fragment is the first 900 characters of the phrase of 901: the lowercase fragment does not
  contain the phrase.
\<close>

theorem find_article_long_number_counterexample:
  "findall_digits (re_digit long_number_world) (str_lower long_number_world long_number_query)
     = [digits_894] \<and>
   detect_file long_number_world (str_lower long_number_world long_number_query)
     = Some ''uk_rf.txt'' \<and>
   py_in (STATYA @ digits_894)
     (str_lower long_number_world (load_law long_number_world ''uk_rf.txt'')) \<and>
   fst (find_article long_number_world long_number_query True)
     = (Some ''uk_rf.txt'', Some (take 900 long_number_law)) \<and>
   \<not> py_in (STATYA @ digits_894) (str_lower long_number_world (take 900 long_number_law))"
proof -
  have hit: "py_in (STATYA @ digits_894)
      (str_lower long_number_world (load_law long_number_world ''uk_rf.txt''))"
    by (simp add: py_in_def long_number_full long_number_low long_number_find)
  have "find_article long_number_world long_number_query True =
      ((Some ''uk_rf.txt'', Some (window long_number_law 0)), [''uk_rf.txt''])"
    using find_article_tier1 [of long_number_world long_number_query digits_894 "[]" "''uk_rf.txt''"]
    by (simp add: long_number_query_lower long_number_nums long_number_codex long_number_full
        long_number_low long_number_find)
  then have res: "fst (find_article long_number_world long_number_query True)
     = (Some ''uk_rf.txt'', Some (take 900 long_number_law))"
    by (simp add: window_eq)
  have "length (take 900 long_number_law) < length (STATYA @ digits_894)"
    by (simp add: long_number_law_def STATYA_def digits_894_def)
  with py_find_range [of "take 900 long_number_law" "STATYA @ digits_894"]
  have "py_find (take 900 long_number_law) (STATYA @ digits_894) = - 1" by linarith
  then have miss: "\<not> py_in (STATYA @ digits_894)
      (str_lower long_number_world (take 900 long_number_law))"
    by (simp add: py_in_def long_number_window_lower)
  from hit res miss show ?thesis
    by (simp add: long_number_query_lower long_number_nums long_number_codex)
qed


subsection \<open>The fallback scan\<close>

text \<open>
  Claim C6. Let the lowercase query be non-empty (the callers pass no empty query) and let
  the lowercase form of the empty text be empty. When the lowercase query has no run of
  digits, or \<^verbatim>\<open>detect_file\<close> gives no file for it, or the precise tier does not find its
  phrase, \<^verbatim>\<open>find_article\<close> returns the first file in the order of \<^verbatim>\<open>LAWS_FILES\<close> whose lowercase
  text contains the whole lowercase query, with the window around the first offset of the
  query there, and \<^verbatim>\<open>(None, None)\<close> when there is no such file. The files that the scan opens
  are those of \<^verbatim>\<open>LAWS_FILES\<close>, in that order, up to and with the file returned.
\<close>

theorem find_article_fallback:
  assumes lower_empty: "str_lower W [] = []"
      and nonempty: "str_lower W query \<noteq> []"
      and tier2: "findall_digits (re_digit W) (str_lower W query) = [] \<or>
           detect_file W (str_lower W query) = None \<or>
           (\<exists>n ns c. findall_digits (re_digit W) (str_lower W query) = n # ns \<and>
              detect_file W (str_lower W query) = Some c \<and>
              \<not> py_in (STATYA @ n) (str_lower W (load_law W c)))"
  shows "let q = str_lower W query;
             occurs = (\<lambda>f. py_in q (str_lower W (load_law W f)))
         in fst (find_article W query True) =
              (case List.find occurs LAWS_FILES of
                 None \<Rightarrow> (None, None)
               | Some f \<Rightarrow>
                   (Some f, Some (window (load_law W f)
                      (py_find (str_lower W (load_law W f)) q)))) \<and>
            (\<exists>pre. snd (find_article W query True) =
               pre @ take (Suc (length (takeWhile (\<lambda>f. \<not> occurs f) LAWS_FILES))) LAWS_FILES)"
proof -
  let ?q = "str_lower W query"
  have same: "(load_law W f \<noteq> [] \<and> py_in ?q (str_lower W (load_law W f))) =
              py_in ?q (str_lower W (load_law W f))" for f
    using py_in_empty [OF nonempty] lower_empty by (cases "load_law W f = []") simp_all
  from find_article_tier2 [OF tier2] scan_laws_first [of W ?q LAWS_FILES]
    scan_laws_opened [of W ?q LAWS_FILES]
  show ?thesis unfolding Let_def same by simp
qed

text \<open>
  The theorem of claim C6 at the query "Dogovor", which has no digits: the constitution is
  missing, the civil code contains the word and is returned, and the criminal code, which
  contains it too, is not opened.
\<close>

theorem find_article_fallback_witness:
  "str_lower dogovor_world [] = [] \<and>
   str_lower dogovor_world query_dogovor \<noteq> [] \<and>
   findall_digits (re_digit dogovor_world) (str_lower dogovor_world query_dogovor) = [] \<and>
   fst (find_article dogovor_world query_dogovor True) = (Some ''gk_rf.txt'', Some article_420_law) \<and>
   (\<exists>pre. snd (find_article dogovor_world query_dogovor True) =
      pre @ [''constitution_rf.txt'', ''gk_rf.txt''])"
proof -
  note f = dogovor_facts
  from find_article_fallback [OF f(1) f(2) disjI1 [OF f(3)]]
  have "fst (find_article dogovor_world query_dogovor True)
      = (Some ''gk_rf.txt'', Some article_420_law) \<and>
    (\<exists>pre. snd (find_article dogovor_world query_dogovor True) =
      pre @ [''constitution_rf.txt'', ''gk_rf.txt''])"
    unfolding Let_def f(4) f(6) by (simp add: f(5))
  with f(1) f(2) f(3) show ?thesis by simp
qed


subsection \<open>A found fragment that is empty\<close>

text \<open>
  Claim C9 says that a found fragment is never empty. The program takes the offset in the
  lowercase text and cuts the window out of the text itself; lowercasing turns each U+0130
  into two code points, so the offset can lie beyond the end of the text. For the query
  "uk 5" and the criminal code of 88 such letters followed by "stat'ya 5", the phrase is at
  offset 176 of the lowercase text, the text has 96 characters, and \<^verbatim>\<open>find_article\<close> returns
  the criminal code with the empty fragment \<^verbatim>\<open>full[96:1076]\<close>.
\<close>

theorem find_article_dotted_I_empty_fragment:
  "find_article dotted_I_world query_uk_5 True =
     ((Some ''uk_rf.txt'', Some []), [''uk_rf.txt''])"
proof -
  note q = dotted_I_query
  have len: "length dotted_I_law = 96"
    by (simp add: dotted_I_law_def STATYA_def)
  have w: "window dotted_I_law 176 = []"
    by (simp add: window_eq len)
  have "find_article dotted_I_world query_uk_5 True =
      ((Some ''uk_rf.txt'', Some (window dotted_I_law 176)), [''uk_rf.txt''])"
    using find_article_tier1 [of dotted_I_world query_uk_5 "[53]" "[]" "''uk_rf.txt''"]
    by (simp add: q dotted_I_find)
  with w show ?thesis by simp
qed


subsection \<open>No boundary after the digits\<close>

text \<open>
  Claim C10. The precise tier searches for the phrase as a plain substring. The query
  "uk 15" has the first run of digits "15" and goes to the criminal code; in the code that
  holds only article 158 the phrase "stat'ya 15" is found at offset 0, where the text reads
  "stat'ya 158", and \<^verbatim>\<open>find_article\<close> returns the window around article 158.
\<close>

theorem find_article_longer_number:
  "findall_digits (re_digit article_158_world) (str_lower article_158_world query_uk_15)
     = [[49, 53]] \<and>
   find_article article_158_world query_uk_15 True
     = ((Some ''uk_rf.txt'', Some article_158_law), [''uk_rf.txt'']) \<and>
   py_find (str_lower article_158_world article_158_law) (STATYA @ [49, 53]) = 0 \<and>
   startswith (str_lower article_158_world article_158_law) (STATYA @ [49, 53, 56])"
  using article_158_result article_158_nums article_158_offsets by simp


section \<open>Properties of the worker\<close>

subsection \<open>The answer\<close>

lemma last_FALLBACK: "FALLBACK \<noteq> [] \<and> last FALLBACK \<in> set TERMINAL"
  by (simp add: FALLBACK_def TERMINAL_def)

lemma last_NOT_CONFIGURED: "NOT_CONFIGURED \<noteq> [] \<and> last NOT_CONFIGURED \<in> set TERMINAL"
  by (simp add: NOT_CONFIGURED_def TERMINAL_def)

lemma last_ERROR_HEAD: "ERROR_HEAD \<noteq> [] \<and> last ERROR_HEAD \<notin> set TERMINAL"
  by (simp add: ERROR_HEAD_def TERMINAL_def)

lemma postprocess_terminal:
  "postprocess raw \<noteq> [] \<and> last (postprocess raw) \<in> set TERMINAL"
proof -
  obtain u where u: "u \<noteq> []"
    and p: "postprocess raw = (if last u \<notin> set TERMINAL then u @ ELLIPSIS else u)"
  proof (cases "strip_prefixes PREFIXES
                  (py_strip (case raw of None \<Rightarrow> [] | Some r \<Rightarrow> r)) = []")
    case True
    with that [of FALLBACK] last_FALLBACK show ?thesis
      by (simp add: postprocess_def Let_def)
  next
    case False
    with that [of "strip_prefixes PREFIXES
                     (py_strip (case raw of None \<Rightarrow> [] | Some r \<Rightarrow> r))"]
    show ?thesis by (simp add: postprocess_def Let_def)
  qed
  show ?thesis
  proof (cases "last u \<in> set TERMINAL")
    case True
    with p u show ?thesis by simp
  next
    case False
    with p show ?thesis by (simp add: ELLIPSIS_def TERMINAL_def)
  qed
qed

lemma run_paths:
  "run H llm w =
     (case fst (get_llm H llm) of
        None \<Rightarrow> ([NOT_CONFIGURED], fst (snd (get_llm H llm)))
      | Some engine \<Rightarrow>
          ([case engine (prompt w) of
              Returned raw \<Rightarrow> postprocess raw
            | Raised e \<Rightarrow> ERROR_HEAD @ e],
           fst (snd (get_llm H llm))))"
  by (cases "get_llm H llm") (auto simp: run_def split: option.splits)

lemma sample_hosts:
  "fst (get_llm failing_host None) = None"
  "fst (get_llm echoing_host None) = Some echoing_engine"
  "fst (get_llm raising_host None) = Some raising_engine"
  by (simp_all add: get_llm_def failing_host_def echoing_host_def raising_host_def)

text \<open>
  Claim C1, as the program has it. \<^verbatim>\<open>run\<close> emits one string and it is never empty. Without
  an engine it is the fixed message, which ends in a full stop. When the call of the engine
  returns, it ends in one of the seven terminal marks. When the call raises with the message
  \<open>e\<close>, it is "Oshibka raboty II: " followed by \<open>e\<close>, so it contains \<open>e\<close>; nothing is appended,
  so it ends in a terminal mark only when \<open>e\<close> is non-empty and ends in one.
\<close>

theorem run_emits_answer:
  "\<exists>text. fst (run H llm w) = [text] \<and> text \<noteq> [] \<and>
     (case fst (get_llm H llm) of
        None \<Rightarrow> text = NOT_CONFIGURED \<and> last text \<in> set TERMINAL
      | Some engine \<Rightarrow>
          (case engine (prompt w) of
             Returned raw \<Rightarrow> last text \<in> set TERMINAL
           | Raised e \<Rightarrow>
               text = ERROR_HEAD @ e \<and>
               (last text \<in> set TERMINAL) = (e \<noteq> [] \<and> last e \<in> set TERMINAL)))"
proof (cases "fst (get_llm H llm)")
  case None
  then show ?thesis using last_NOT_CONFIGURED by (simp add: run_paths)
next
  case (Some engine)
  show ?thesis
  proof (cases "engine (prompt w)")
    case (Returned raw)
    with Some postprocess_terminal [of raw] show ?thesis by (simp add: run_paths)
  next
    case (Raised e)
    have "(last (ERROR_HEAD @ e) \<in> set TERMINAL) = (e \<noteq> [] \<and> last e \<in> set TERMINAL)"
      using last_ERROR_HEAD by (cases "e = []") simp_all
    with Some Raised last_ERROR_HEAD show ?thesis by (simp add: run_paths)
  qed
qed

text \<open>
  The theorem of claim C1 on the three paths: on the machine where \<^verbatim>\<open>Llama(...)\<close> raises,
  with the engine that returns a text, and with the engine that raises.
\<close>

theorem run_emits_answer_witness:
  "fst (run failing_host None sample_worker) = [NOT_CONFIGURED] \<and>
   (\<exists>text. fst (run echoing_host None sample_worker) = [text] \<and> text \<noteq> [] \<and>
      last text \<in> set TERMINAL) \<and>
   fst (run raising_host None sample_worker) = [ERROR_HEAD @ [88]]"
proof -
  have r: "raising_engine (prompt sample_worker) = Raised [88]"
    and e: "echoing_engine (prompt sample_worker) = Returned (Some echo_twice)"
    by (simp_all add: raising_engine_def echoing_engine_def)
  from run_emits_answer [of failing_host None sample_worker]
  have a: "fst (run failing_host None sample_worker) = [NOT_CONFIGURED]"
    by (auto simp: sample_hosts)
  from run_emits_answer [of echoing_host None sample_worker]
  have b: "\<exists>text. fst (run echoing_host None sample_worker) = [text] \<and> text \<noteq> [] \<and>
      last text \<in> set TERMINAL"
    by (simp add: sample_hosts e)
  from run_emits_answer [of raising_host None sample_worker]
  have c: "fst (run raising_host None sample_worker) = [ERROR_HEAD @ [88]]"
    by (auto simp: sample_hosts r)
  from a b c show ?thesis by blast
qed

text \<open>
  Claim C1 as the specification states it fails on the path where the call raises: with the
  message "X" the emitted string ends in the letter X, which is no terminal mark.
\<close>

theorem run_raising_counterexample:
  "fst (get_llm raising_host None) = Some raising_engine \<and>
   raising_engine (prompt sample_worker) = Raised [88] \<and>
   fst (run raising_host None sample_worker) = [ERROR_HEAD @ [88]] \<and>
   last (ERROR_HEAD @ [88]) \<notin> set TERMINAL"
  by (simp add: run_paths sample_hosts raising_engine_def TERMINAL_def)


subsection \<open>The echo prefixes\<close>

lemma strip_prefixes_chain:
  "\<exists>ps. subseq ps L \<and> removed_in_turn ps t = Some (strip_prefixes L t)"
proof (induction L arbitrary: t)
  case Nil
  have "subseq [] ([]::ustring list) \<and> removed_in_turn [] t = Some (strip_prefixes [] t)"
    by simp
  then show ?case by blast
next
  case (Cons p L)
  show ?case
  proof (cases "startswith t p")
    case True
    from Cons.IH [of "py_lstrip (drop (length p) t)"] obtain ps where
      "subseq ps L" "removed_in_turn ps (py_lstrip (drop (length p) t)) =
         Some (strip_prefixes L (py_lstrip (drop (length p) t)))" by blast
    with True have "subseq (p # ps) (p # L) \<and>
        removed_in_turn (p # ps) t = Some (strip_prefixes (p # L) t)" by simp
    then show ?thesis by blast
  next
    case False
    from Cons.IH [of t] obtain ps where
      "subseq ps L" "removed_in_turn ps t = Some (strip_prefixes L t)" by blast
    with False have "subseq ps (p # L) \<and>
        removed_in_turn ps t = Some (strip_prefixes (p # L) t)"
      by (simp add: list_emb_Cons)
    then show ?thesis by blast
  qed
qed

lemma suffix_py_lstrip: "suffix (py_lstrip s) s"
  unfolding py_lstrip_def by (metis suffixI takeWhile_dropWhile_id)

lemma strip_prefixes_suffix: "suffix (strip_prefixes L t) t"
proof (induction L arbitrary: t)
  case Nil
  then show ?case by simp
next
  case (Cons p L)
  have "suffix (py_lstrip (drop (length p) t)) t"
    using suffix_py_lstrip [of "drop (length p) t"] suffix_drop [of "length p" t]
    by (rule suffix_order.trans)
  with Cons.IH [of "py_lstrip (drop (length p) t)"] Cons.IH [of t]
  show ?case by (auto intro: suffix_order.trans)
qed

text \<open>
  The loop as a sequence of texts: \<open>ts ! i\<close> is the text before the turn of the prefix
  \<open>L ! i\<close>, and each turn removes its prefix when the text starts with it and leaves the
  text as it is otherwise.
\<close>

lemma strip_prefixes_trace:
  "\<exists>ts. length ts = Suc (length L) \<and> ts ! 0 = t \<and> ts ! length L = strip_prefixes L t \<and>
        (\<forall>i < length L. ts ! Suc i =
           (if startswith (ts ! i) (L ! i) then py_lstrip (drop (length (L ! i)) (ts ! i))
            else ts ! i))"
proof (induction L arbitrary: t)
  case Nil
  have "length [t] = Suc (length ([]::ustring list)) \<and> [t] ! 0 = t \<and>
        [t] ! length ([]::ustring list) = strip_prefixes [] t" by simp
  then show ?case by (intro exI [of _ "[t]"]) simp
next
  case (Cons p L)
  define t' where "t' = (if startswith t p then py_lstrip (drop (length p) t) else t)"
  from Cons.IH [of t'] obtain ts where
    len: "length ts = Suc (length L)" and first: "ts ! 0 = t'" and
    final: "ts ! length L = strip_prefixes L t'" and
    steps: "\<forall>i < length L. ts ! Suc i =
           (if startswith (ts ! i) (L ! i) then py_lstrip (drop (length (L ! i)) (ts ! i))
            else ts ! i)" by blast
  have "\<forall>i < length (p # L). (t # ts) ! Suc i =
           (if startswith ((t # ts) ! i) ((p # L) ! i)
            then py_lstrip (drop (length ((p # L) ! i)) ((t # ts) ! i))
            else (t # ts) ! i)"
  proof (intro allI impI)
    fix i assume "i < length (p # L)"
    then show "(t # ts) ! Suc i =
           (if startswith ((t # ts) ! i) ((p # L) ! i)
            then py_lstrip (drop (length ((p # L) ! i)) ((t # ts) ! i))
            else (t # ts) ! i)"
      using first steps by (cases i) (simp_all add: t'_def)
  qed
  moreover have "length (t # ts) = Suc (length (p # L))" "(t # ts) ! 0 = t"
    "(t # ts) ! length (p # L) = strip_prefixes (p # L) t"
    using len final by (simp_all add: t'_def)
  ultimately show ?case by blast
qed

text \<open>
  Claim C3, as the program has it. The loop has no \<^verbatim>\<open>break\<close>: it tries the five prefixes
  once each, in the order of the list, on the text as the earlier removals left it. At the
  turn of the prefix number \<open>i\<close> the text \<open>ts ! i\<close> loses that prefix and the white space
  after it when it starts with it, character by character, and stays as it is otherwise;
  the text after the fifth turn is the result. So the removed prefixes are a subsequence
  \<open>ps\<close> of the list, each of the five at most once and at most five in all, and the result
  is an end piece of the text.
\<close>

theorem strip_prefixes_each_once:
  "(\<exists>ts. length ts = 6 \<and> ts ! 0 = t \<and> ts ! 5 = strip_prefixes PREFIXES t \<and>
         (\<forall>i < 5. ts ! Suc i =
            (if startswith (ts ! i) (PREFIXES ! i)
             then py_lstrip (drop (length (PREFIXES ! i)) (ts ! i))
             else ts ! i))) \<and>
   (\<exists>ps. subseq ps PREFIXES \<and> length ps \<le> 5 \<and>
         removed_in_turn ps t = Some (strip_prefixes PREFIXES t)) \<and>
   suffix (strip_prefixes PREFIXES t) t"
proof -
  have five: "length PREFIXES = 5" by (simp add: PREFIXES_def)
  from strip_prefixes_trace [of PREFIXES t]
  have trace: "\<exists>ts. length ts = 6 \<and> ts ! 0 = t \<and> ts ! 5 = strip_prefixes PREFIXES t \<and>
         (\<forall>i < 5. ts ! Suc i =
            (if startswith (ts ! i) (PREFIXES ! i)
             then py_lstrip (drop (length (PREFIXES ! i)) (ts ! i))
             else ts ! i))"
    by (simp only: five) simp
  from strip_prefixes_chain [of PREFIXES t] obtain ps where
    ps: "subseq ps PREFIXES" "removed_in_turn ps t = Some (strip_prefixes PREFIXES t)"
    by blast
  from ps(1) have "length ps \<le> length PREFIXES" by (rule list_emb_length)
  then have "length ps \<le> 5" by (simp only: five)
  with ps have chain: "\<exists>ps. subseq ps PREFIXES \<and> length ps \<le> 5 \<and>
         removed_in_turn ps t = Some (strip_prefixes PREFIXES t)" by blast
  from trace chain strip_prefixes_suffix [of PREFIXES t] show ?thesis by (intro conjI)
qed

text \<open>
  The theorem of claim C3 at the text "Otvet: Vopros: da.": the turns of the theorem give
  "Vopros: da." after the first prefix, the same after the next three, and "da." after
  the fifth.
\<close>

theorem strip_prefixes_each_once_witness:
  "strip_prefixes PREFIXES echo_twice = [1076, 1072, 46]"
proof -
  from strip_prefixes_each_once [of echo_twice] obtain ts where
    t0: "ts ! 0 = echo_twice" and t5: "ts ! 5 = strip_prefixes PREFIXES echo_twice" and
    steps: "\<forall>i < 5. ts ! Suc i =
            (if startswith (ts ! i) (PREFIXES ! i)
             then py_lstrip (drop (length (PREFIXES ! i)) (ts ! i))
             else ts ! i)" by blast
  have p: "PREFIXES ! 0 = [1054, 1090, 1074, 1077, 1090, 58]"
    "PREFIXES ! Suc 0 = [1086, 1090, 1074, 1077, 1090, 58]"
    "PREFIXES ! Suc (Suc 0) =
       [1054, 1090, 1074, 1077, 1090, 32, 1087, 1086, 1083, 1100, 1079, 1086, 1074,
        1072, 1090, 1077, 1083, 1103, 58]"
    "PREFIXES ! Suc (Suc (Suc 0)) =
       [1042, 1086, 1087, 1088, 1086, 1089, 32, 1087, 1086, 1083, 1100, 1079, 1086,
        1074, 1072, 1090, 1077, 1083, 1103, 58]"
    "PREFIXES ! Suc (Suc (Suc (Suc 0))) = [1042, 1086, 1087, 1088, 1086, 1089, 58]"
    by (simp_all add: PREFIXES_def)
  have t1: "ts ! Suc 0 = [1042, 1086, 1087, 1088, 1086, 1089, 58, 32, 1076, 1072, 46]"
    using steps [rule_format, of 0]
    by (simp add: t0 p echo_twice_def py_lstrip_def is_space_def)
  have t2: "ts ! Suc (Suc 0) = [1042, 1086, 1087, 1088, 1086, 1089, 58, 32, 1076, 1072, 46]"
    using steps [rule_format, of "Suc 0"] by (simp add: t1 p)
  have t3: "ts ! Suc (Suc (Suc 0)) =
      [1042, 1086, 1087, 1088, 1086, 1089, 58, 32, 1076, 1072, 46]"
    using steps [rule_format, of "Suc (Suc 0)"] by (simp add: t2 p)
  have t4: "ts ! Suc (Suc (Suc (Suc 0))) =
      [1042, 1086, 1087, 1088, 1086, 1089, 58, 32, 1076, 1072, 46]"
    using steps [rule_format, of "Suc (Suc (Suc 0))"] by (simp add: t3 p)
  have "ts ! Suc (Suc (Suc (Suc (Suc 0)))) = [1076, 1072, 46]"
    using steps [rule_format, of "Suc (Suc (Suc (Suc 0)))"]
    by (simp add: t4 p py_lstrip_def is_space_def)
  moreover have "(5::nat) = Suc (Suc (Suc (Suc (Suc 0))))" by simp
  ultimately have "ts ! 5 = [1076, 1072, 46]" by (simp only:)
  with t5 show ?thesis by (simp only:)
qed

text \<open>
  Claim C3 as the specification states it fails at the text "Otvet: Vopros: da.": the loop
  removes "Otvet:" and then "Vopros:", and leaves "da.", which is not the text with one
  prefix removed.
\<close>

theorem strip_prefixes_twice_counterexample:
  "strip_prefixes PREFIXES echo_twice = [1076, 1072, 46] \<and>
   \<not> removes_at_most_one_prefix echo_twice (strip_prefixes PREFIXES echo_twice)"
proof -
  have r: "strip_prefixes PREFIXES echo_twice = [1076, 1072, 46]"
    by (simp add: PREFIXES_def echo_twice_def py_lstrip_def is_space_def)
  have "\<not> removes_at_most_one_prefix echo_twice [1076, 1072, 46]"
    by (simp add: removes_at_most_one_prefix_def PREFIXES_def echo_twice_def py_lstrip_def
        is_space_def)
  with r show ?thesis by simp
qed


subsection \<open>One emission\<close>

text \<open>
  Claim C5. \<^verbatim>\<open>run\<close> calls \<^verbatim>\<open>finished.emit\<close> exactly once, whatever \<^verbatim>\<open>get_llm\<close> returns and
  whether the call of the engine returns or raises; and \<^verbatim>\<open>ask_ai\<close> on an input that is not
  empty after \<^verbatim>\<open>strip\<close> starts one worker, so that \<^verbatim>\<open>ai_done\<close> receives exactly one string.
\<close>

theorem finished_emitted_once:
  "length (fst (run H llm w)) = 1 \<and>
   (py_strip input \<noteq> [] \<longrightarrow> length (fst (ask_ai W H llm laws_ok input)) = 1)"
proof -
  have one: "length (fst (run H llm w)) = 1" for w
    by (simp add: run_paths split: option.splits)
  then show ?thesis
    by (simp add: ask_ai_def Let_def split: prod.splits)
qed

text \<open>The theorem of claim C5 for the question "uk 15" and the engine that raises.\<close>

theorem finished_emitted_once_witness:
  "py_strip query_uk_15 \<noteq> [] \<and>
   length (fst (run raising_host None sample_worker)) = 1 \<and>
   length (fst (ask_ai article_158_world raising_host None True query_uk_15)) = 1"
proof -
  have h: "py_strip query_uk_15 \<noteq> []"
    by (simp add: py_strip_def query_uk_15_def is_space_def)
  from finished_emitted_once
    [of raising_host None sample_worker query_uk_15 article_158_world True]
  show ?thesis using h by simp
qed


section \<open>Properties of the engine handle\<close>

text \<open>
  Claim C4, as the program has it. A call in which \<^verbatim>\<open>Llama(...)\<close> raises returns \<^verbatim>\<open>None\<close> and
  leaves the global \<^verbatim>\<open>llm\<close> empty: the failure is not remembered. The next call, on the
  machine \<open>H'\<close> as it is then, checks the two preconditions again and, when they hold, calls
  \<^verbatim>\<open>Llama(...)\<close> again; it returns the engine when that call succeeds and \<^verbatim>\<open>None\<close> when it
  raises again.
\<close>

theorem get_llm_retries:
  assumes "HAS_LLAMA H" and "model_exists H" and "Llama H = None"
  shows "get_llm H None = (None, None, True) \<and>
         get_llm H' (fst (snd (get_llm H None))) =
           (if HAS_LLAMA H' \<and> model_exists H' then (Llama H', Llama H', True)
            else (None, None, False))"
  using assms by (simp add: get_llm_def split: option.splits)

text \<open>
  The theorem of claim C4: after the failure on the first machine, the call on the machine
  where the model can be built builds it and returns it.
\<close>

theorem get_llm_retries_witness:
  "HAS_LLAMA failing_host \<and> model_exists failing_host \<and> Llama failing_host = None \<and>
   get_llm failing_host None = (None, None, True) \<and>
   get_llm echoing_host (fst (snd (get_llm failing_host None))) =
     (Some echoing_engine, Some echoing_engine, True)"
proof -
  have h: "HAS_LLAMA failing_host" "model_exists failing_host" "Llama failing_host = None"
    by (simp_all add: failing_host_def)
  have e: "HAS_LLAMA echoing_host" "model_exists echoing_host"
    "Llama echoing_host = Some echoing_engine"
    by (simp_all add: echoing_host_def)
  note t = get_llm_retries [OF h, of echoing_host]
  have a: "get_llm failing_host None = (None, None, True)"
    by (rule t [THEN conjunct1])
  have b: "get_llm echoing_host (fst (snd (get_llm failing_host None))) =
     (Some echoing_engine, Some echoing_engine, True)"
    using t [THEN conjunct2] by (simp only: e simp_thms if_True)
  from h a b show ?thesis by blast
qed

text \<open>
  Claim C4 as the specification states it fails: after a failed construction the next call
  does not only check the preconditions. On the same machine it calls \<^verbatim>\<open>Llama(...)\<close> again;
  on a machine where the construction now succeeds it returns the engine.
\<close>

theorem get_llm_retry_counterexample:
  "get_llm failing_host None = (None, None, True) \<and>
   get_llm failing_host (fst (snd (get_llm failing_host None))) = (None, None, True) \<and>
   get_llm raising_host (fst (snd (get_llm failing_host None))) =
     (Some raising_engine, Some raising_engine, True)"
  by (simp add: get_llm_def failing_host_def raising_host_def)

end
